theory Spec2Isabelle
  imports Main "HOL-Library.Word" "HOL-Library.Sublist"
begin

section \<open>Strings of the page script\<close>

text \<open>
  The script \<^verbatim>\<open>app.js\<close> is one asynchronous handler, \<^verbatim>\<open>submitForm\<close>. Its values are
  JavaScript strings, which are sequences of 16-bit code units; they are modelled as lists
  of 16-bit words, so that \<^verbatim>\<open>split\<close>, \<^verbatim>\<open>trim\<close> and \<^verbatim>\<open>includes\<close> see what the
  engine sees. A literal of the source is written \<open>u16 ''...''\<close>; the three symbols of the
  source outside ASCII are given by their code units.
\<close>

type_synonym jsstring = "16 word list"

definition u16 :: "string \<Rightarrow> jsstring" where
  "u16 s = map of_char s"

definition comma :: "16 word" where
  "comma = 44"

text \<open>
  \<^verbatim>\<open>String.prototype.trim\<close> removes the code units that ECMAScript calls white space or
  line terminator from both ends.
\<close>

definition is_ws :: "16 word \<Rightarrow> bool" where
  "is_ws c = (c = 0x0009 \<or> c = 0x000A \<or> c = 0x000B \<or> c = 0x000C \<or> c = 0x000D
     \<or> c = 0x0020 \<or> c = 0x00A0 \<or> c = 0x1680 \<or> (0x2000 \<le> c \<and> c \<le> 0x200A)
     \<or> c = 0x2028 \<or> c = 0x2029 \<or> c = 0x202F \<or> c = 0x205F \<or> c = 0x3000
     \<or> c = 0xFEFF)"

definition trim_start :: "jsstring \<Rightarrow> jsstring" where
  "trim_start s = dropWhile is_ws s"

definition trim_end :: "jsstring \<Rightarrow> jsstring" where
  "trim_end s = rev (dropWhile is_ws (rev s))"

definition trim :: "jsstring \<Rightarrow> jsstring" where
  "trim s = trim_end (trim_start s)"

text \<open>
  \<^verbatim>\<open>s.split(sep)\<close> for a separator of one code unit: the text is scanned from the left,
  \<open>acc\<close> holds the piece being read (reversed), and every separator closes a piece. The
  empty text gives the one empty piece.
\<close>

fun split_from :: "16 word \<Rightarrow> jsstring \<Rightarrow> jsstring \<Rightarrow> jsstring list" where
  "split_from sep acc [] = [rev acc]"
| "split_from sep acc (c # cs) =
     (if c = sep then rev acc # split_from sep [] cs else split_from sep (c # acc) cs)"

definition split :: "16 word \<Rightarrow> jsstring \<Rightarrow> jsstring list" where
  "split sep s = split_from sep [] s"

text \<open>
  Line 32:
  \<^verbatim>\<open>const questions = questionsText.split(",").map(q => q.trim()).filter(q => q);\<close>
  A string is truthy exactly when it is not empty.
\<close>

definition questions :: "jsstring \<Rightarrow> jsstring list" where
  "questions questionsText = filter (\<lambda>q. q \<noteq> []) (map (\<lambda>q. trim q) (split comma questionsText))"

text \<open>\<^verbatim>\<open>s.includes(p)\<close>: \<open>p\<close> occurs in \<open>s\<close> as a contiguous run of code units.\<close>

fun includes_js :: "jsstring \<Rightarrow> jsstring \<Rightarrow> bool" where
  "includes_js [] p = (p = [])"
| "includes_js (c # cs) p = (prefix p (c # cs) \<or> includes_js cs p)"

text \<open>
  \<^verbatim>\<open>timer + 's'\<close> and \<^verbatim>\<open>${timer}\<close> print the counter in decimal. The counter is a
  count of ticks, a natural number; the engine prints every integer below \<open>10^21\<close> this way.
\<close>

definition digit :: "nat \<Rightarrow> 16 word" where
  "digit d = of_nat (48 + d)"

function show_nat :: "nat \<Rightarrow> jsstring" where
  "show_nat n = (if n < 10 then [digit n] else show_nat (n div 10) @ [digit (n mod 10)])"
  by pat_completeness auto
termination
  by (relation "measure id") auto

declare show_nat.simps [simp del]

section \<open>JSON values and their text\<close>

text \<open>
  \<^verbatim>\<open>JSON.stringify\<close> is used twice: without indentation for the request body and with
  an indentation of two spaces for the answer. A number is carried as the text that the
  engine prints for it (its digits are not computed here); an object is the list of its
  properties in enumeration order.
\<close>

datatype json =
    JNull
  | JBool bool
  | JNumber jsstring
  | JString jsstring
  | JArray "json list"
  | JObject "(jsstring \<times> json) list"

definition hex_digit :: "nat \<Rightarrow> 16 word" where
  "hex_digit d = (if d < 10 then of_nat (48 + d) else of_nat (87 + d))"

definition unicode_escape :: "16 word \<Rightarrow> jsstring" where
  "unicode_escape c =
     [0x5C, 0x75] @ map hex_digit
       [unat c div 4096 mod 16, unat c div 256 mod 16, unat c div 16 mod 16, unat c mod 16]"

definition quote_unit :: "16 word \<Rightarrow> jsstring" where
  "quote_unit c =
     (if c = 0x08 then [0x5C, 0x62]
      else if c = 0x09 then [0x5C, 0x74]
      else if c = 0x0A then [0x5C, 0x6E]
      else if c = 0x0C then [0x5C, 0x66]
      else if c = 0x0D then [0x5C, 0x72]
      else if c = 0x22 then [0x5C, 0x22]
      else if c = 0x5C then [0x5C, 0x5C]
      else if c < 0x20 \<or> (0xD800 \<le> c \<and> c \<le> 0xDFFF) then unicode_escape c
      else [c])"

definition is_high_surrogate :: "16 word \<Rightarrow> bool" where
  "is_high_surrogate c = (0xD800 \<le> c \<and> c \<le> 0xDBFF)"

definition is_low_surrogate :: "16 word \<Rightarrow> bool" where
  "is_low_surrogate c = (0xDC00 \<le> c \<and> c \<le> 0xDFFF)"

text \<open>A surrogate pair is copied; a surrogate on its own is escaped.\<close>

fun quote_body :: "jsstring \<Rightarrow> jsstring" where
  "quote_body [] = []"
| "quote_body [c] = quote_unit c"
| "quote_body (c # d # ds) =
     (if is_high_surrogate c \<and> is_low_surrogate d then c # d # quote_body ds
      else quote_unit c @ quote_body (d # ds))"

definition QuoteJSONString :: "jsstring \<Rightarrow> jsstring" where
  "QuoteJSONString s = [0x22] @ quote_body s @ [0x22]"

fun join :: "jsstring \<Rightarrow> jsstring list \<Rightarrow> jsstring" where
  "join sep [] = []"
| "join sep [x] = x"
| "join sep (x # y # ys) = x @ sep @ join sep (y # ys)"

fun SerializeJSONProperty :: "jsstring \<Rightarrow> jsstring \<Rightarrow> json \<Rightarrow> jsstring" where
  "SerializeJSONProperty gap indent JNull = u16 ''null''"
| "SerializeJSONProperty gap indent (JBool b) = (if b then u16 ''true'' else u16 ''false'')"
| "SerializeJSONProperty gap indent (JNumber t) = t"
| "SerializeJSONProperty gap indent (JString s) = QuoteJSONString s"
| "SerializeJSONProperty gap indent (JArray xs) =
     (let stepback = indent;
          indent = indent @ gap;
          partial = map (\<lambda>x. SerializeJSONProperty gap indent x) xs
      in if partial = [] then u16 ''[]''
         else if gap = [] then u16 ''['' @ join (u16 '','') partial @ u16 '']''
         else u16 ''['' @ [0x0A] @ indent @ join (u16 '','' @ [0x0A] @ indent) partial
                @ [0x0A] @ stepback @ u16 '']'')"
| "SerializeJSONProperty gap indent (JObject kvs) =
     (let stepback = indent;
          indent = indent @ gap;
          partial = map (\<lambda>(k, v). QuoteJSONString k @ u16 '':''
                      @ (if gap = [] then [] else u16 '' '')
                      @ SerializeJSONProperty gap indent v) kvs
      in if partial = [] then u16 ''{}''
         else if gap = [] then u16 ''{'' @ join (u16 '','') partial @ u16 ''}''
         else u16 ''{'' @ [0x0A] @ indent @ join (u16 '','' @ [0x0A] @ indent) partial
                @ [0x0A] @ stepback @ u16 ''}'')"

text \<open>
  \<^verbatim>\<open>JSON.stringify(value, null, space)\<close> with a numeric \<open>space\<close> (at most ten spaces are
  used); \<^verbatim>\<open>JSON.stringify(value)\<close> is the case \<open>space = 0\<close>.
\<close>

definition JSON_stringify :: "nat \<Rightarrow> json \<Rightarrow> jsstring" where
  "JSON_stringify space v = SerializeJSONProperty (replicate (min 10 space) 0x20) [] v"

section \<open>The page, the network and the timers\<close>

text \<open>
  The output container holds the markup last written to its \<^verbatim>\<open>innerHTML\<close>. The
  markup is kept in segments: literal markup, and the elements that the script writes with
  an \<^verbatim>\<open>id\<close> and later looks up, with their text. \<open>innerHTML\<close> gives the markup back as
  one string. Markup that comes from the server is a literal segment: an element inside it
  is not seen by \<open>getElementById\<close>.
\<close>

datatype segment = Markup jsstring | Span jsstring jsstring

fun segment_html :: "segment \<Rightarrow> jsstring" where
  "segment_html (Markup m) = m"
| "segment_html (Span ident t) =
     u16 ''<span id='' @ [0x27] @ ident @ [0x27] @ u16 ''>'' @ t @ u16 ''</span>''"

definition innerHTML :: "segment list \<Rightarrow> jsstring" where
  "innerHTML box = concat (map segment_html box)"

text \<open>The position of the first element with the given id, \<open>None\<close> for \<^verbatim>\<open>null\<close>.\<close>

fun getElementById :: "jsstring \<Rightarrow> segment list \<Rightarrow> nat option" where
  "getElementById ident [] = None"
| "getElementById ident (Markup m # rest) = map_option Suc (getElementById ident rest)"
| "getElementById ident (Span i t # rest) =
     (if i = ident then Some 0 else map_option Suc (getElementById ident rest))"

fun with_text :: "jsstring \<Rightarrow> segment \<Rightarrow> segment" where
  "with_text t (Span i old) = Span i t"
| "with_text t (Markup m) = Markup m"

datatype error_class = Error | TypeError | SyntaxError | AbortError

datatype js_error = JsError (cls: error_class) (message: jsstring)

record request =
  url :: jsstring
  http_method :: jsstring
  headers :: "(jsstring \<times> jsstring) list"
  body :: jsstring

text \<open>
  What the network gives back. \<open>body_text\<close> and \<open>body_json\<close> are the outcomes of
  \<^verbatim>\<open>await queryRes.text()\<close> and \<^verbatim>\<open>await queryRes.json()\<close> (the parsed body, or the
  error the promise rejects with); reading the body takes \<open>body_ms\<close> milliseconds.
  \<^verbatim>\<open>queryRes.ok\<close> holds for a status from 200 to 299.
\<close>

record response =
  status :: nat
  body_ms :: nat
  body_text :: "js_error + jsstring"
  body_json :: "js_error + json"

definition ok :: "response \<Rightarrow> bool" where
  "ok r = (200 \<le> status r \<and> status r \<le> 299)"

text \<open>
  The environment of one submission: the promise of \<^verbatim>\<open>fetch\<close> settles after
  \<open>fetch_ms\<close> milliseconds, rejected with an error or fulfilled with a response;
  \<open>tick_first\<close> says which of two timer callbacks due at the same instant runs first.
\<close>

record env =
  fetch_ms :: nat
  fetch_result :: "js_error + response"
  tick_first :: bool

datatype effect =
    Alert jsstring
  | SetInnerHTML "segment list"
  | SetTextContent jsstring
  | SetInterval nat
  | SetTimeout nat
  | ClearInterval
  | ClearTimeout
  | Fetch request
  | ConsoleError js_error
  | Uncaught js_error

text \<open>
  The state of one submission: the clock in milliseconds since the call, the content of
  the output container, the local variables \<^verbatim>\<open>timer\<close>, \<^verbatim>\<open>timerInterval\<close> and
  \<^verbatim>\<open>waitingTimeout\<close>, and the effects so far in the order they happened. A timer handle
  is \<open>None\<close> while the timer is not armed; an armed interval is its next due time and its
  period, an armed timeout its due time.
\<close>

record state =
  now :: nat
  responseBox :: "segment list"
  timer :: nat
  timerInterval :: "(nat \<times> nat) option"
  waitingTimeout :: "nat option"
  trace :: "effect list"

definition emit :: "effect \<Rightarrow> state \<Rightarrow> state" where
  "emit e s = s\<lparr>trace := trace s @ [e]\<rparr>"

definition alert :: "jsstring \<Rightarrow> state \<Rightarrow> state" where
  "alert msg s = emit (Alert msg) s"

definition console_error :: "js_error \<Rightarrow> state \<Rightarrow> state" where
  "console_error err s = emit (ConsoleError err) s"

definition set_innerHTML :: "segment list \<Rightarrow> state \<Rightarrow> state" where
  "set_innerHTML m s = emit (SetInnerHTML m) (s\<lparr>responseBox := m\<rparr>)"

definition setInterval :: "nat \<Rightarrow> state \<Rightarrow> state" where
  "setInterval ms s = emit (SetInterval ms) (s\<lparr>timerInterval := Some (now s + ms, ms)\<rparr>)"

definition setTimeout :: "nat \<Rightarrow> state \<Rightarrow> state" where
  "setTimeout ms s = emit (SetTimeout ms) (s\<lparr>waitingTimeout := Some (now s + ms)\<rparr>)"

definition clearTimeout :: "state \<Rightarrow> state" where
  "clearTimeout s = emit ClearTimeout (s\<lparr>waitingTimeout := None\<rparr>)"

definition clearInterval :: "state \<Rightarrow> state" where
  "clearInterval s = emit ClearInterval (s\<lparr>timerInterval := None\<rparr>)"

definition fetch :: "request \<Rightarrow> state \<Rightarrow> state" where
  "fetch req s = emit (Fetch req) s"

text \<open>
  Assigning \<^verbatim>\<open>textContent\<close> through a reference: on \<^verbatim>\<open>null\<close> the engine throws a
  \<^verbatim>\<open>TypeError\<close>, on an element the text of the element is replaced.
\<close>

definition assign_textContent :: "nat option \<Rightarrow> jsstring \<Rightarrow> state \<Rightarrow> js_error + state" where
  "assign_textContent elem t s =
     (case elem of
        None \<Rightarrow> Inl (JsError TypeError (u16 ''Cannot set properties of null''))
      | Some i \<Rightarrow>
          Inr (emit (SetTextContent t)
                 (s\<lparr>responseBox := (responseBox s)[i := with_text t (responseBox s ! i)]\<rparr>)))"

subsection \<open>The handler\<close>

text \<open>
  Lines 14 to 17:
  \<^verbatim>\<open>function updateTimer() {
    const timerElem = document.getElementById('timerSpan');
    if (timerElem) timerElem.textContent = timer + 's';
  }\<close>
\<close>

definition updateTimer :: "state \<Rightarrow> js_error + state" where
  "updateTimer s =
     (let timerElem = getElementById (u16 ''timerSpan'') (responseBox s)
      in if timerElem \<noteq> None
         then assign_textContent timerElem (show_nat (timer s) @ u16 ''s'') s
         else Inr s)"

text \<open>An error that leaves a timer callback is reported by the browser and goes no further.\<close>

definition callback_end :: "state \<Rightarrow> js_error + state \<Rightarrow> state" where
  "callback_end s r = (case r of Inl e \<Rightarrow> emit (Uncaught e) s | Inr s' \<Rightarrow> s')"

text \<open>Lines 21 to 24, the callback of the interval: \<^verbatim>\<open>timer++; updateTimer();\<close>\<close>

definition tick :: "state \<Rightarrow> state" where
  "tick s = (let s1 = s\<lparr>timer := timer s + 1\<rparr> in callback_end s1 (updateTimer s1))"

definition still_working_markup :: "nat \<Rightarrow> segment list" where
  \<open>still_working_markup n =
     [Markup (u16 ''<span class="loader"></span> <span>Still working... This may take a few more seconds for large documents or complex questions.<br><span class='waiting-msg'>Thank you for your patience!</span> ''),
      Span (u16 ''timerSpan'') (show_nat n @ u16 ''s''),
      Markup (u16 ''</span>'')]\<close>

text \<open>Lines 26 to 29, the callback of the timeout.\<close>

definition waiting :: "state \<Rightarrow> state" where
  "waiting s =
     (let s1 = set_innerHTML (still_working_markup (timer s)) s
      in callback_end s1 (updateTimer s1))"

text \<open>
  The event loop while the handler is suspended: of the armed timers that are due at
  \<open>until\<close> or before, the one due first runs, then the next. An interval is armed again one
  period later (the browser never repeats faster than once a millisecond), a timeout runs
  once.
\<close>

datatype callback = Tick | Waiting

definition next_due :: "bool \<Rightarrow> nat \<Rightarrow> state \<Rightarrow> callback option" where
  "next_due tick_1st until s =
     (case (timerInterval s, waitingTimeout s) of
        (None, None) \<Rightarrow> None
      | (Some (d, p), None) \<Rightarrow> if d \<le> until then Some Tick else None
      | (None, Some w) \<Rightarrow> if w \<le> until then Some Waiting else None
      | (Some (d, p), Some w) \<Rightarrow>
          if d < w \<or> (d = w \<and> tick_1st)
          then (if d \<le> until then Some Tick else None)
          else (if w \<le> until then Some Waiting else None))"

fun fire :: "callback \<Rightarrow> state \<Rightarrow> state" where
  "fire Tick s =
     (case timerInterval s of
        None \<Rightarrow> s
      | Some (d, p) \<Rightarrow> tick (s\<lparr>now := max (now s) d, timerInterval := Some (d + max 1 p, p)\<rparr>))"
| "fire Waiting s =
     (case waitingTimeout s of
        None \<Rightarrow> s
      | Some w \<Rightarrow> waiting (s\<lparr>now := max (now s) w, waitingTimeout := None\<rparr>))"

function run_timers :: "bool \<Rightarrow> nat \<Rightarrow> state \<Rightarrow> state" where
  "run_timers tick_1st until s =
     (case next_due tick_1st until s of
        None \<Rightarrow> s\<lparr>now := max (now s) until\<rparr>
      | Some cb \<Rightarrow> run_timers tick_1st until (fire cb s))"
  by pat_completeness auto
termination
proof (relation "measure (\<lambda>(tick_1st, until, s).
    (case timerInterval s of None \<Rightarrow> 0 | Some (d, p) \<Rightarrow> Suc until - d)
    + (case waitingTimeout s of None \<Rightarrow> 0 | Some w \<Rightarrow> 1))")
  show "wf (measure (\<lambda>(tick_1st, until, s).
    (case timerInterval s of None \<Rightarrow> 0 | Some (d, p) \<Rightarrow> Suc until - d)
    + (case waitingTimeout s of None \<Rightarrow> 0 | Some w \<Rightarrow> 1)))"
    by simp
next
  fix tick_1st :: bool and until :: nat and s :: state and cb :: callback
  assume due: "next_due tick_1st until s = Some cb"
  have keep_tick: "timerInterval (tick s') = timerInterval s'
      \<and> waitingTimeout (tick s') = waitingTimeout s'" for s'
    by (simp add: tick_def callback_end_def updateTimer_def assign_textContent_def emit_def
        Let_def split: option.splits sum.splits)
  have keep_waiting: "timerInterval (waiting s') = timerInterval s'
      \<and> waitingTimeout (waiting s') = waitingTimeout s'" for s'
    by (simp add: waiting_def callback_end_def updateTimer_def assign_textContent_def
        set_innerHTML_def emit_def Let_def split: option.splits sum.splits)
  show "((tick_1st, until, fire cb s), (tick_1st, until, s))
      \<in> measure (\<lambda>(tick_1st, until, s).
          (case timerInterval s of None \<Rightarrow> 0 | Some (d, p) \<Rightarrow> Suc until - d)
          + (case waitingTimeout s of None \<Rightarrow> 0 | Some w \<Rightarrow> 1))"
  proof (cases cb)
    case Tick
    with due show ?thesis
      by (auto simp: next_due_def keep_tick split: option.splits if_splits)
  next
    case Waiting
    with due show ?thesis
      by (auto simp: next_due_def keep_waiting split: option.splits if_splits)
  qed
qed

declare run_timers.simps [simp del]

text \<open>\<^verbatim>\<open>await\<close> on a promise that settles \<open>ms\<close> milliseconds from now.\<close>

definition await :: "bool \<Rightarrow> nat \<Rightarrow> state \<Rightarrow> state" where
  "await tick_1st ms s = run_timers tick_1st (now s + ms) s"

definition thinking_markup :: "segment list" where
  \<open>thinking_markup =
     [Markup (u16 ''<span class="loader"></span> <span>Thinking... Please wait while we analyze your document and questions. ''),
      Span (u16 ''timerSpan'') (u16 ''0s''),
      Markup (u16 ''</span>'')]\<close>

definition answer_markup :: "nat \<Rightarrow> json \<Rightarrow> segment list" where
  \<open>answer_markup n data =
     [Markup (u16 ''<div style="margin-bottom:8px;color:var(--accent);font-size:0.98em;">''
        @ [0x23F1, 0xFE0F] @ u16 '' Answer loaded in <b>'' @ show_nat n
        @ u16 ''s</b></div><pre>'' @ JSON_stringify 2 data @ u16 ''</pre>'')]\<close>

definition error_prefix :: jsstring where
  \<open>error_prefix = u16 ''<b style="color:red">'' @ [0x274C] @ u16 '' Error:</b> ''\<close>

definition connect_error_markup :: "segment list" where
  "connect_error_markup = [Markup (error_prefix @ u16 ''Could not connect to backend server.'')]"

definition error_markup :: "jsstring \<Rightarrow> segment list" where
  "error_markup msg = [Markup (error_prefix @ msg)]"

text \<open>
  Lines 11 to 29: the locals, the first message, and the two timers. The state before is
  the page as the call found it.
\<close>

definition begin_loading :: "state \<Rightarrow> state" where
  "begin_loading s =
     (let s1 = s\<lparr>timer := 0, timerInterval := None\<rparr>;
          s2 = set_innerHTML thinking_markup s1;
          s3 = s2\<lparr>timer := 0\<rparr>;
          s4 = setInterval 1000 s3
      in setTimeout 5000 s4)"

text \<open>Lines 34 to 45, the request.\<close>

definition query_request :: "jsstring \<Rightarrow> jsstring list \<Rightarrow> request" where
  "query_request documentUrl qs =
     \<lparr>url = u16 ''/hackrx/run'',
      http_method = u16 ''POST'',
      headers = [(u16 ''Content-Type'', u16 ''application/json''),
                 (u16 ''Authorization'', u16 ''Bearer hackrx-secret-token''),
                 (u16 ''Accept'', u16 ''application/json'')],
      body = JSON_stringify 0
               (JObject [(u16 ''documents'', JString documentUrl),
                         (u16 ''questions'', JArray (map JString qs))])\<rparr>"

text \<open>
  Lines 31 to 54, the body of \<^verbatim>\<open>try\<close>: the result is the error thrown, if any, and the
  state where the block was left.
\<close>

definition try_block :: "jsstring \<Rightarrow> jsstring \<Rightarrow> env \<Rightarrow> state \<Rightarrow> js_error option \<times> state" where
  "try_block documentUrl questionsText e s =
     (let qs = questions questionsText;
          s1 = fetch (query_request documentUrl qs) s;
          s2 = await (tick_first e) (fetch_ms e) s1
      in case fetch_result e of
           Inl err \<Rightarrow> (Some err, s2)
         | Inr queryRes \<Rightarrow>
             if \<not> ok queryRes then
               (let s3 = await (tick_first e) (body_ms queryRes) s2
                in case body_text queryRes of
                     Inl err \<Rightarrow> (Some err, s3)
                   | Inr t \<Rightarrow> (Some (JsError Error (u16 ''Query failed: '' @ t)), s3))
             else
               (let s3 = await (tick_first e) (body_ms queryRes) s2
                in case body_json queryRes of
                     Inl err \<Rightarrow> (Some err, s3)
                   | Inr data \<Rightarrow>
                       (let s4 = clearTimeout s3;
                            s5 = clearInterval s4
                        in (None, set_innerHTML (answer_markup (timer s5) data) s5))))"

text \<open>Lines 56 to 65, the body of \<^verbatim>\<open>catch\<close>.\<close>

definition catch_block :: "js_error \<Rightarrow> state \<Rightarrow> state" where
  "catch_block err s =
     (let s1 = console_error err s;
          s2 = clearTimeout s1;
          s3 = clearInterval s2
      in if cls err = TypeError \<and> includes_js (message err) (u16 ''Failed to fetch'')
         then set_innerHTML connect_error_markup s3
         else set_innerHTML (error_markup (message err)) s3)"

text \<open>
  The page as a call finds it: the output container with the content \<open>box\<close>, no timer of
  this call armed, nothing done yet.
\<close>

definition page :: "segment list \<Rightarrow> state" where
  "page box =
     \<lparr>now = 0, responseBox = box, timer = 0, timerInterval = None, waitingTimeout = None,
      trace = []\<rparr>"

text \<open>
  \<^verbatim>\<open>submitForm\<close>. \<open>documentUrl\<close> and \<open>questionsText\<close> are the values of the two input
  fields (a string is falsy exactly when it is empty), \<open>box\<close> is the content of the output
  container before the call.
\<close>

definition submitForm :: "jsstring \<Rightarrow> jsstring \<Rightarrow> env \<Rightarrow> segment list \<Rightarrow> state" where
  "submitForm documentUrl questionsText e box =
     (let s = page box
      in if documentUrl = [] \<or> questionsText = []
         then alert (u16 ''Please enter a document URL and your questions.'') s
         else
           (case try_block documentUrl questionsText e (begin_loading s) of
              (None, s') \<Rightarrow> s'
            | (Some err, s') \<Rightarrow> catch_block err s'))"

subsection \<open>The decomposition of the questions field in the specification's words\<close>

text \<open>
  The specification describes the questions as: the text split on commas, each piece with
  the white space at its two ends removed, the empty pieces dropped, in the order of the
  text. \<open>spec_pieces\<close> cuts at each comma in turn, \<open>spec_strip\<close> keeps the part of a piece
  between its leading and its trailing white space.
\<close>

function spec_pieces :: "jsstring \<Rightarrow> jsstring list" where
  "spec_pieces t =
     (case dropWhile (\<lambda>c. c \<noteq> comma) t of
        [] \<Rightarrow> [t]
      | _ # rest \<Rightarrow> takeWhile (\<lambda>c. c \<noteq> comma) t # spec_pieces rest)"
  by pat_completeness auto
termination
proof (relation "measure length")
  show "wf (measure length)" by simp
next
  fix t :: jsstring and x rest
  assume "dropWhile (\<lambda>c. c \<noteq> comma) t = x # rest"
  then have "length (x # rest) \<le> length t"
    by (metis length_dropWhile_le)
  then show "(rest, t) \<in> measure length" by simp
qed

declare spec_pieces.simps [simp del]

definition spec_strip :: "jsstring \<Rightarrow> jsstring" where
  "spec_strip p =
     (let lead = length (takeWhile is_ws p);
          trail = length (takeWhile is_ws (rev (drop lead p)))
      in take (length p - lead - trail) (drop lead p))"

definition spec_questions :: "jsstring \<Rightarrow> jsstring list" where
  "spec_questions t = [q \<leftarrow> map spec_strip (spec_pieces t). q \<noteq> []]"

subsection \<open>Notions used to state the properties\<close>

text \<open>The requests among the effects of a run, in the order they were issued.\<close>

fun requests :: "effect list \<Rightarrow> request list" where
  "requests [] = []"
| "requests (Fetch r # es) = r # requests es"
| "requests (e # es) = requests es"

text \<open>The first message with \<open>n\<close> in its elapsed-seconds element.\<close>

definition thinking_box :: "nat \<Rightarrow> segment list" where
  "thinking_box n = thinking_markup[1 := Span (u16 ''timerSpan'') (show_nat n @ u16 ''s'')]"

text \<open>
  What holds of the state whenever the handler is suspended with both timers as it armed
  them, and the event loop is about to run up to the instant \<open>until\<close>.
\<close>

definition loading_inv :: "nat \<Rightarrow> state \<Rightarrow> bool" where
  "loading_inv until s =
     (now s \<le> until \<and> 1000 * timer s \<le> until
      \<and> timerInterval s = Some (1000 * (timer s + 1), 1000)
      \<and> (waitingTimeout s = Some 5000 \<and> responseBox s = thinking_box (timer s)
          \<or> waitingTimeout s = None \<and> 5000 \<le> until
            \<and> responseBox s = still_working_markup (timer s)))"



text \<open>The environments used as examples.\<close>

definition http_500_example :: env where
  "http_500_example =
     \<lparr>fetch_ms = 1200,
      fetch_result = Inr \<lparr>status = 500, body_ms = 0,
                          body_text = Inr (u16 ''server exploded''),
                          body_json = Inl (JsError SyntaxError (u16 ''Unexpected token''))\<rparr>,
      tick_first = True\<rparr>"

definition http_200_example :: env where
  \<open>http_200_example =
     \<lparr>fetch_ms = 6500,
      fetch_result = Inr \<lparr>status = 200, body_ms = 700,
                          body_text = Inr (u16 ''{"answers":["x"]}''),
                          body_json = Inr (JObject [(u16 ''answers'', JArray [JString (u16 ''x'')])])\<rparr>,
      tick_first = False\<rparr>\<close>

definition fetch_failure_example :: env where
  "fetch_failure_example =
     \<lparr>fetch_ms = 300,
      fetch_result = Inl (JsError TypeError (u16 ''Failed to fetch'')),
      tick_first = True\<rparr>"

section \<open>Properties of the string operations\<close>

lemma spec_pieces_Nil: "spec_pieces [] = [[]]"
  by (simp add: spec_pieces.simps)

lemma spec_pieces_Cons:
  "spec_pieces (c # cs) =
     (if c = comma then [] # spec_pieces cs
      else (c # hd (spec_pieces cs)) # tl (spec_pieces cs))"
proof (cases "c = comma")
  case True
  then show ?thesis by (subst spec_pieces.simps) simp
next
  case False
  let ?P = "\<lambda>c. c \<noteq> comma"
  show ?thesis
  proof (cases "dropWhile ?P cs")
    case Nil
    then have "dropWhile ?P (c # cs) = []" using False by simp
    then have whole: "spec_pieces (c # cs) = [c # cs]"
      by (subst spec_pieces.simps) (simp only: list.case)
    from Nil have "spec_pieces cs = [cs]"
      by (subst spec_pieces.simps) (simp only: list.case)
    with False whole show ?thesis by simp
  next
    case (Cons x rest)
    then have "dropWhile ?P (c # cs) = x # rest" using False by simp
    then have whole: "spec_pieces (c # cs) = takeWhile ?P (c # cs) # spec_pieces rest"
      by (subst spec_pieces.simps) (simp only: list.case)
    from Cons have "spec_pieces cs = takeWhile ?P cs # spec_pieces rest"
      by (subst spec_pieces.simps) (simp only: list.case)
    with False whole show ?thesis by simp
  qed
qed

lemma spec_pieces_not_Nil: "spec_pieces t \<noteq> []"
  by (cases t) (simp_all add: spec_pieces_Nil spec_pieces_Cons)

lemma split_from_spec_pieces:
  "split_from comma acc s = (rev acc @ hd (spec_pieces s)) # tl (spec_pieces s)"
proof (induction s arbitrary: acc)
  case Nil
  then show ?case by (simp add: spec_pieces_Nil)
next
  case (Cons c cs)
  have ne: "spec_pieces cs \<noteq> []" by (rule spec_pieces_not_Nil)
  show ?case
  proof (cases "c = comma")
    case True
    with ne show ?thesis by (simp add: Cons.IH spec_pieces_Cons)
  next
    case False
    then show ?thesis by (simp add: Cons.IH spec_pieces_Cons)
  qed
qed

lemma split_spec_pieces: "split comma s = spec_pieces s"
  using spec_pieces_not_Nil [of s] by (simp add: split_def split_from_spec_pieces)

lemma trim_end_spec:
  "trim_end s = take (length s - length (takeWhile is_ws (rev s))) s"
proof -
  have "rev s = takeWhile is_ws (rev s) @ dropWhile is_ws (rev s)" by simp
  then have "s = rev (dropWhile is_ws (rev s)) @ rev (takeWhile is_ws (rev s))"
    by (metis rev_append rev_rev_ident)
  then have "take (length s - length (takeWhile is_ws (rev s))) s
      = take (length (rev (dropWhile is_ws (rev s))))
          (rev (dropWhile is_ws (rev s)) @ rev (takeWhile is_ws (rev s)))"
    by (metis add_diff_cancel_right' length_append length_rev)
  then show ?thesis by (simp add: trim_end_def)
qed

lemma trim_spec_strip: "trim p = spec_strip p"
  by (simp add: trim_def trim_start_def trim_end_spec spec_strip_def Let_def
      dropWhile_eq_drop)

lemma questions_spec_questions: "questions t = spec_questions t"
  by (simp add: questions_def spec_questions_def split_spec_pieces trim_spec_strip)

lemma spec_pieces_no_comma: "p \<in> set (spec_pieces t) \<Longrightarrow> comma \<notin> set p"
proof (induction t arbitrary: p)
  case Nil
  then show ?case by (simp add: spec_pieces_Nil)
next
  case (Cons c cs)
  have ne: "spec_pieces cs \<noteq> []" by (rule spec_pieces_not_Nil)
  show ?case
  proof (cases "c = comma")
    case True
    with Cons show ?thesis by (auto simp: spec_pieces_Cons)
  next
    case False
    from Cons.prems False
    have "p = c # hd (spec_pieces cs) \<or> p \<in> set (tl (spec_pieces cs))"
      by (simp add: spec_pieces_Cons)
    then show ?thesis
    proof
      assume "p = c # hd (spec_pieces cs)"
      moreover from ne have "hd (spec_pieces cs) \<in> set (spec_pieces cs)" by simp
      ultimately show ?thesis using Cons.IH False by auto
    next
      assume "p \<in> set (tl (spec_pieces cs))"
      with ne have "p \<in> set (spec_pieces cs)" by (meson list.set_sel(2))
      then show ?thesis by (rule Cons.IH)
    qed
  qed
qed

lemma join_spec_pieces: "join [comma] (spec_pieces t) = t"
proof (induction t)
  case Nil
  then show ?case by (simp add: spec_pieces_Nil)
next
  case (Cons c cs)
  obtain p ps where ps: "spec_pieces cs = p # ps"
    using spec_pieces_not_Nil [of cs] by (cases "spec_pieces cs") auto
  with Cons show ?case
    by (cases ps) (auto simp: spec_pieces_Cons)
qed

lemma join_split_comma: "join [comma] (split comma t) = t"
  by (simp add: split_spec_pieces join_spec_pieces)

lemma spec_pieces_subset: "p \<in> set (spec_pieces t) \<Longrightarrow> set p \<subseteq> set t"
proof (induction t arbitrary: p)
  case Nil
  then show ?case by (simp add: spec_pieces_Nil)
next
  case (Cons c cs)
  have ne: "spec_pieces cs \<noteq> []" by (rule spec_pieces_not_Nil)
  then have hd_in: "hd (spec_pieces cs) \<in> set (spec_pieces cs)" by simp
  have tl_in: "q \<in> set (tl (spec_pieces cs)) \<Longrightarrow> q \<in> set (spec_pieces cs)" for q
    using ne by (meson list.set_sel(2))
  from Cons.prems
  have "p = [] \<or> p = c # hd (spec_pieces cs) \<or> p \<in> set (spec_pieces cs)"
    by (auto simp: spec_pieces_Cons tl_in split: if_splits)
  moreover have "set (hd (spec_pieces cs)) \<subseteq> set cs"
    using hd_in by (rule Cons.IH)
  moreover have "set p \<subseteq> set cs" if "p \<in> set (spec_pieces cs)"
    using that by (rule Cons.IH)
  ultimately show ?case by auto
qed

lemma trim_all_ws:
  assumes "\<forall>c\<in>set p. is_ws c"
  shows "trim p = []"
  using assms by (auto simp: trim_def trim_start_def trim_end_def dest: set_dropWhileD)

lemma trim_no_outer_ws:
  "trim p = [] \<or> (\<not> is_ws (hd (trim p)) \<and> \<not> is_ws (last (trim p)))"
proof (cases "trim p = []")
  case True
  then show ?thesis by simp
next
  case False
  let ?m = "dropWhile is_ws p"
  from False have m: "?m \<noteq> []"
    by (auto simp: trim_def trim_start_def trim_end_def dest: set_dropWhileD)
  then have first: "\<not> is_ws (hd ?m)" by (rule hd_dropWhile)
  let ?r = "dropWhile is_ws (rev ?m)"
  from False have r: "?r \<noteq> []"
    by (simp add: trim_def trim_start_def trim_end_def)
  then have "\<not> is_ws (hd ?r)" by (rule hd_dropWhile)
  with r have last_ok: "\<not> is_ws (last (rev ?r))" by (simp add: last_rev)
  have "rev ?m = takeWhile is_ws (rev ?m) @ ?r" by simp
  then have "?m = rev ?r @ rev (takeWhile is_ws (rev ?m))"
    by (metis rev_append rev_rev_ident)
  with r have "hd ?m = hd (rev ?r)" by (metis hd_append2 rev_is_Nil_conv)
  with first last_ok show ?thesis
    by (simp add: trim_def trim_start_def trim_end_def)
qed

lemma questions_all_separators:
  assumes "\<forall>c\<in>set t. c = comma \<or> is_ws c"
  shows "questions t = []"
proof -
  have "trim p = []" if "p \<in> set (spec_pieces t)" for p
  proof (rule trim_all_ws, rule ballI)
    fix c assume c: "c \<in> set p"
    with that have "c \<in> set t" using spec_pieces_subset by blast
    moreover from that c have "c \<noteq> comma" using spec_pieces_no_comma by blast
    ultimately show "is_ws c" using assms by blast
  qed
  then show ?thesis
    by (simp add: questions_def split_spec_pieces filter_empty_conv)
qed

lemma questions_example: "questions (u16 ''a, b ,,c'') = [u16 ''a'', u16 ''b'', u16 ''c'']"
  by code_simp

section \<open>The question list\<close>

text \<open>
  C2. For every text of the questions field, the list of questions that the handler
  derives is the text split on commas, each piece trimmed of white space, the empty
  pieces dropped, in the order of the text and with repetitions kept; and for the text
  \<^verbatim>\<open>a, b ,,c\<close> it is the list of \<^verbatim>\<open>a\<close>, \<^verbatim>\<open>b\<close> and \<^verbatim>\<open>c\<close>.
\<close>

theorem questions_decomposition:
  "questions questionsText = [q \<leftarrow> map spec_strip (spec_pieces questionsText). q \<noteq> []]
   \<and> questions (u16 ''a, b ,,c'') = [u16 ''a'', u16 ''b'', u16 ''c'']"
  using questions_spec_questions [of questionsText] questions_example
  by (simp add: spec_questions_def)

section \<open>The validation gate\<close>

text \<open>
  C3. When the document URL or the questions text is empty, the handler shows the alert
  and stops: the alert is its only effect, so no request is sent and no timer is armed,
  and the content of the output container is what it was before the call.
\<close>

theorem submitForm_empty_input:
  assumes "documentUrl = [] \<or> questionsText = []"
  shows "trace (submitForm documentUrl questionsText e box)
           = [Alert (u16 ''Please enter a document URL and your questions.'')]
         \<and> requests (trace (submitForm documentUrl questionsText e box)) = []
         \<and> timerInterval (submitForm documentUrl questionsText e box) = None
         \<and> waitingTimeout (submitForm documentUrl questionsText e box) = None
         \<and> responseBox (submitForm documentUrl questionsText e box) = box"
  using assms by (simp add: submitForm_def page_def alert_def emit_def)

theorem submitForm_empty_input_witness:
  "trace (submitForm [] (u16 ''why?'') http_200_example [Markup (u16 ''before'')])
     = [Alert (u16 ''Please enter a document URL and your questions.'')]
   \<and> responseBox (submitForm [] (u16 ''why?'') http_200_example [Markup (u16 ''before'')])
     = [Markup (u16 ''before'')]"
  using submitForm_empty_input [of "[]" "u16 ''why?''" http_200_example "[Markup (u16 ''before'')]"]
  by simp

section \<open>The tick\<close>

text \<open>
  C10. \<^verbatim>\<open>updateTimer\<close> looks the elapsed-seconds element up by its id and writes the
  text only when the element exists: with no element of id \<^verbatim>\<open>timerSpan\<close> it changes
  nothing, with one it sets its text to the counter followed by \<^verbatim>\<open>s\<close>, and it never
  throws. A tick without the element only counts.
\<close>

theorem updateTimer_guarded:
  "(getElementById (u16 ''timerSpan'') (responseBox s) = None \<longrightarrow>
      updateTimer s = Inr s \<and> tick s = s\<lparr>timer := timer s + 1\<rparr>)
   \<and> (\<forall>i. getElementById (u16 ''timerSpan'') (responseBox s) = Some i \<longrightarrow>
      updateTimer s =
        Inr (s\<lparr>responseBox :=
                 (responseBox s)[i := with_text (show_nat (timer s) @ u16 ''s'') (responseBox s ! i)],
               trace := trace s @ [SetTextContent (show_nat (timer s) @ u16 ''s'')]\<rparr>))
   \<and> (\<forall>err. updateTimer s \<noteq> Inl err)"
  by (auto simp: updateTimer_def tick_def callback_end_def assign_textContent_def emit_def
      Let_def)

theorem updateTimer_guarded_witness:
  "getElementById (u16 ''timerSpan'') (responseBox (page [Markup (u16 ''done'')])) = None
   \<and> updateTimer (page [Markup (u16 ''done'')]) = Inr (page [Markup (u16 ''done'')])"
proof -
  have absent: "getElementById (u16 ''timerSpan'') (responseBox (page [Markup (u16 ''done'')])) = None"
    by (simp add: page_def)
  with updateTimer_guarded [of "page [Markup (u16 ''done'')]"] show ?thesis
    by blast
qed

section \<open>The markup of the loading messages\<close>

text \<open>
  The segments of the two loading messages spell the template literals of lines 19 and 27,
  and a successful lookup gives the position of an element with the id asked for.
\<close>

lemma getElementById_found:
  "getElementById ident box = Some i \<Longrightarrow> i < length box \<and> (\<exists>t. box ! i = Span ident t)"
proof (induction ident box arbitrary: i rule: getElementById.induct)
  case (1 ident)
  then show ?case by simp
next
  case (2 ident m rest)
  then show ?case by auto
next
  case (3 ident j t rest)
  then show ?case by (auto split: if_splits)
qed

lemma innerHTML_thinking_markup:
  \<open>innerHTML thinking_markup
     = u16 ''<span class="loader"></span> <span>Thinking... Please wait while we analyze your document and questions. <span id='timerSpan'>0s</span></span>''\<close>
  by (simp add: innerHTML_def thinking_markup_def u16_def)

lemma innerHTML_still_working_markup:
  \<open>innerHTML (still_working_markup n)
     = u16 ''<span class="loader"></span> <span>Still working... This may take a few more seconds for large documents or complex questions.<br><span class='waiting-msg'>Thank you for your patience!</span> <span id='timerSpan'>''
       @ show_nat n @ u16 ''s</span></span>''\<close>
  by (simp add: innerHTML_def still_working_markup_def u16_def)

section \<open>The timers while the handler is suspended\<close>

lemma show_nat_0: "show_nat 0 @ u16 ''s'' = u16 ''0s''"
  by (simp add: show_nat.simps digit_def u16_def)

lemma thinking_box_0: "thinking_box 0 = thinking_markup"
  by (simp add: thinking_box_def thinking_markup_def show_nat_0)

lemma updateTimer_thinking:
  "responseBox s = thinking_box m \<Longrightarrow>
   updateTimer s = Inr (s\<lparr>responseBox := thinking_box (timer s),
                          trace := trace s @ [SetTextContent (show_nat (timer s) @ u16 ''s'')]\<rparr>)"
  by (simp add: updateTimer_def assign_textContent_def emit_def thinking_box_def
      thinking_markup_def Let_def)

lemma updateTimer_still_working:
  "responseBox s = still_working_markup m \<Longrightarrow>
   updateTimer s = Inr (s\<lparr>responseBox := still_working_markup (timer s),
                          trace := trace s @ [SetTextContent (show_nat (timer s) @ u16 ''s'')]\<rparr>)"
  by (simp add: updateTimer_def assign_textContent_def emit_def still_working_markup_def Let_def)

lemma fire_loading_inv:
  assumes "loading_inv until s" and "next_due tick_1st until s = Some cb"
  shows "loading_inv until (fire cb s)"
proof (cases cb)
  case Tick
  with assms show ?thesis
    by (auto simp: loading_inv_def next_due_def tick_def callback_end_def
        updateTimer_thinking [where m = "timer s"] updateTimer_still_working [where m = "timer s"]
        split: if_splits)
next
  case Waiting
  with assms show ?thesis
    by (auto simp: loading_inv_def next_due_def waiting_def callback_end_def set_innerHTML_def emit_def
        updateTimer_still_working [where m = "timer s"]
        split: if_splits)
qed

lemma run_timers_loading:
  "loading_inv until s \<Longrightarrow>
   now (run_timers tick_1st until s) = until
   \<and> timer (run_timers tick_1st until s) = until div 1000
   \<and> timerInterval (run_timers tick_1st until s) = Some (1000 * (until div 1000 + 1), 1000)
   \<and> waitingTimeout (run_timers tick_1st until s) = (if until < 5000 then Some 5000 else None)
   \<and> responseBox (run_timers tick_1st until s) =
       (if until < 5000 then thinking_box (until div 1000) else still_working_markup (until div 1000))"
proof (induction tick_1st until s rule: run_timers.induct)
  case (1 tick_1st until s)
  show ?case
  proof (cases "next_due tick_1st until s")
    case None
    have run: "run_timers tick_1st until s = s\<lparr>now := max (now s) until\<rparr>"
      using None by (subst run_timers.simps) simp
    from "1.prems" None have "timer s = until div 1000"
      by (auto simp: loading_inv_def next_due_def split: if_splits)
    with "1.prems" None show ?thesis
      unfolding run
      by (auto simp: loading_inv_def next_due_def split: if_splits)
  next
    case (Some cb)
    have run: "run_timers tick_1st until s = run_timers tick_1st until (fire cb s)"
      using Some by (subst run_timers.simps) simp
    have "loading_inv until (fire cb s)"
      using "1.prems" Some by (rule fire_loading_inv)
    with "1.IH" [OF Some] show ?thesis
      unfolding run by simp
  qed
qed


lemma loading_inv_mono: "loading_inv until s \<Longrightarrow> until \<le> until' \<Longrightarrow> loading_inv until' s"
  by (auto simp: loading_inv_def)

lemma loading_inv_emit: "loading_inv until (emit e s) = loading_inv until s"
  by (simp add: loading_inv_def emit_def)

lemma begin_loading_inv: "loading_inv until (begin_loading (page box))"
  by (simp add: loading_inv_def begin_loading_def page_def setTimeout_def setInterval_def
      set_innerHTML_def emit_def thinking_box_0 Let_def)

lemma begin_loading_trace:
  "trace (begin_loading (page box)) = [SetInnerHTML thinking_markup, SetInterval 1000, SetTimeout 5000]"
  by (simp add: begin_loading_def page_def setTimeout_def setInterval_def
      set_innerHTML_def emit_def Let_def)

lemma begin_loading_now: "now (begin_loading (page box)) = 0"
  by (simp add: begin_loading_def page_def setTimeout_def setInterval_def
      set_innerHTML_def emit_def Let_def)

lemma await_loading:
  assumes "loading_inv (now s) s"
  shows "loading_inv (now s + ms) (await tick_1st ms s)
   \<and> now (await tick_1st ms s) = now s + ms
   \<and> timer (await tick_1st ms s) = (now s + ms) div 1000
   \<and> timerInterval (await tick_1st ms s) = Some (1000 * ((now s + ms) div 1000 + 1), 1000)
   \<and> waitingTimeout (await tick_1st ms s) = (if now s + ms < 5000 then Some 5000 else None)
   \<and> responseBox (await tick_1st ms s) =
       (if now s + ms < 5000 then thinking_box ((now s + ms) div 1000)
        else still_working_markup ((now s + ms) div 1000))"
proof -
  from assms have "loading_inv (now s + ms) s"
    by (rule loading_inv_mono) simp
  from run_timers_loading [OF this, of tick_1st] show ?thesis
    by (simp add: await_def loading_inv_def)
qed

subsection \<open>Only the handler itself sends a request\<close>

lemma requests_append: "requests (xs @ ys) = requests xs @ requests ys"
  by (induction xs rule: requests.induct) simp_all

lemma requests_emit:
  "requests (trace (emit e s)) = requests (trace s) @ requests [e]"
  by (simp add: emit_def requests_append)

lemma requests_updateTimer:
  "updateTimer s = Inr s' \<Longrightarrow> requests (trace s') = requests (trace s)"
  by (auto simp: updateTimer_def assign_textContent_def requests_emit Let_def
      split: if_splits option.splits)

lemma requests_callback_end:
  "requests (trace (callback_end s (updateTimer s))) = requests (trace s)"
  by (cases "updateTimer s") (auto simp: callback_end_def requests_emit requests_updateTimer)

lemma requests_fire: "requests (trace (fire cb s)) = requests (trace s)"
  by (cases cb)
    (auto simp: tick_def waiting_def Let_def requests_callback_end set_innerHTML_def
      requests_emit split: option.splits)

lemma requests_run_timers: "requests (trace (run_timers tick_1st until s)) = requests (trace s)"
proof (induction tick_1st until s rule: run_timers.induct)
  case (1 tick_1st until s)
  show ?case
  proof (cases "next_due tick_1st until s")
    case None
    then show ?thesis by (subst run_timers.simps) simp
  next
    case (Some cb)
    then have "run_timers tick_1st until s = run_timers tick_1st until (fire cb s)"
      by (subst run_timers.simps) simp
    with "1.IH" [OF Some] show ?thesis by (simp add: requests_fire)
  qed
qed

lemma requests_await: "requests (trace (await tick_1st ms s)) = requests (trace s)"
  by (simp add: await_def requests_run_timers)

lemma run_timers_idle:
  "timerInterval s = None \<Longrightarrow> waitingTimeout s = None \<Longrightarrow>
   run_timers tick_1st until s = s\<lparr>now := max (now s) until\<rparr>"
  by (subst run_timers.simps) (simp add: next_due_def)

lemma requests_try_block:
  "requests (trace (snd (try_block documentUrl questionsText e s)))
     = requests (trace s) @ [query_request documentUrl (questions questionsText)]"
  by (simp add: try_block_def Let_def requests_await requests_emit fetch_def
      clearTimeout_def clearInterval_def set_innerHTML_def split: sum.splits)

lemma requests_catch_block: "requests (trace (catch_block err s)) = requests (trace s)"
  by (simp add: catch_block_def Let_def requests_emit console_error_def
      clearTimeout_def clearInterval_def set_innerHTML_def)

lemma requests_submitForm:
  assumes "documentUrl \<noteq> []" and "questionsText \<noteq> []"
  shows "requests (trace (submitForm documentUrl questionsText e box))
     = [query_request documentUrl (questions questionsText)]"
proof -
  obtain r s' where tb: "try_block documentUrl questionsText e (begin_loading (page box)) = (r, s')"
    by (cases "try_block documentUrl questionsText e (begin_loading (page box))")
  from requests_try_block [of documentUrl questionsText e "begin_loading (page box)"] tb
  have "requests (trace s') = [query_request documentUrl (questions questionsText)]"
    by (simp add: begin_loading_trace)
  with assms tb show ?thesis
    by (cases r) (simp_all add: submitForm_def requests_catch_block)
qed


section \<open>The ways out of the try block\<close>

lemma u16_not_Nil: "s \<noteq> [] \<Longrightarrow> u16 s \<noteq> []"
  by (simp add: u16_def)

lemma try_block_rejected:
  "fetch_result e = Inl err \<Longrightarrow>
   try_block documentUrl questionsText e s
     = (Some err, await (tick_first e) (fetch_ms e)
                    (fetch (query_request documentUrl (questions questionsText)) s))"
  by (simp add: try_block_def Let_def)

lemma try_block_http_error:
  "fetch_result e = Inr r \<Longrightarrow> \<not> ok r \<Longrightarrow> body_text r = Inr t \<Longrightarrow>
   try_block documentUrl questionsText e s
     = (Some (JsError Error (u16 ''Query failed: '' @ t)),
        await (tick_first e) (body_ms r)
          (await (tick_first e) (fetch_ms e)
             (fetch (query_request documentUrl (questions questionsText)) s)))"
  by (simp add: try_block_def Let_def)

lemma try_block_success:
  "fetch_result e = Inr r \<Longrightarrow> ok r \<Longrightarrow> body_json r = Inr data \<Longrightarrow>
   try_block documentUrl questionsText e s
     = (let s3 = await (tick_first e) (body_ms r)
                   (await (tick_first e) (fetch_ms e)
                      (fetch (query_request documentUrl (questions questionsText)) s))
        in (None, set_innerHTML (answer_markup (timer s3) data) (clearInterval (clearTimeout s3))))"
  by (simp add: try_block_def Let_def clearInterval_def clearTimeout_def emit_def)

lemma catch_block_trace:
  "trace (catch_block err s)
     = trace s @ [ConsoleError err, ClearTimeout, ClearInterval,
                  SetInnerHTML (responseBox (catch_block err s))]"
  by (simp add: catch_block_def Let_def console_error_def clearTimeout_def clearInterval_def
      set_innerHTML_def emit_def)

lemma catch_block_timers:
  "timerInterval (catch_block err s) = None \<and> waitingTimeout (catch_block err s) = None"
  by (simp add: catch_block_def Let_def console_error_def clearTimeout_def clearInterval_def
      set_innerHTML_def emit_def)

lemma catch_block_box:
  "responseBox (catch_block err s)
     = (if cls err = TypeError \<and> includes_js (message err) (u16 ''Failed to fetch'')
        then connect_error_markup else error_markup (message err))"
  by (simp add: catch_block_def Let_def console_error_def clearTimeout_def clearInterval_def
      set_innerHTML_def emit_def)

lemma try_block_completed:
  assumes "try_block documentUrl questionsText e s = (None, s')"
  shows "\<exists>pre. trace s' = pre @ [ClearTimeout, ClearInterval, SetInnerHTML (responseBox s')]
     \<and> timerInterval s' = None \<and> waitingTimeout s' = None"
  using assms
  by (auto simp: try_block_def Let_def clearTimeout_def clearInterval_def set_innerHTML_def
      emit_def split: sum.splits if_splits)

section \<open>Cancelling the timers\<close>

text \<open>
  C4. Every call that passes validation ends with a final write to the output container,
  whatever the network does (success, HTTP error, unreadable body, failed request), and
  the last three effects of the call are, in this order, the cancellation of the timeout,
  the cancellation of the interval, and that write. Both timers are then disarmed, so
  however long the event loop runs afterwards nothing changes but the clock: no later
  write to the elapsed-seconds element or to the container.
\<close>

theorem timers_cancelled_before_render:
  assumes "documentUrl \<noteq> []" and "questionsText \<noteq> []"
  shows "\<exists>pre. trace (submitForm documentUrl questionsText e box)
            = pre @ [ClearTimeout, ClearInterval,
                     SetInnerHTML (responseBox (submitForm documentUrl questionsText e box))]
         \<and> timerInterval (submitForm documentUrl questionsText e box) = None
         \<and> waitingTimeout (submitForm documentUrl questionsText e box) = None
         \<and> (\<forall>tick_1st t.
               run_timers tick_1st t (submitForm documentUrl questionsText e box)
                 = (submitForm documentUrl questionsText e box)
                     \<lparr>now := max (now (submitForm documentUrl questionsText e box)) t\<rparr>)"
proof -
  let ?sf = "submitForm documentUrl questionsText e box"
  obtain r s' where tb: "try_block documentUrl questionsText e (begin_loading (page box)) = (r, s')"
    by (cases "try_block documentUrl questionsText e (begin_loading (page box))")
  have shape: "\<exists>pre. trace ?sf = pre @ [ClearTimeout, ClearInterval, SetInnerHTML (responseBox ?sf)]
      \<and> timerInterval ?sf = None \<and> waitingTimeout ?sf = None"
  proof (cases r)
    case None
    with assms tb have "?sf = s'" by (simp add: submitForm_def)
    with try_block_completed tb None show ?thesis by blast
  next
    case (Some err)
    with assms tb have sf: "?sf = catch_block err s'" by (simp add: submitForm_def)
    have "trace (catch_block err s')
        = (trace s' @ [ConsoleError err])
          @ [ClearTimeout, ClearInterval, SetInnerHTML (responseBox (catch_block err s'))]"
      by (simp add: catch_block_trace)
    with catch_block_timers [of err s'] show ?thesis unfolding sf by blast
  qed
  then have "run_timers tick_1st t ?sf = ?sf\<lparr>now := max (now ?sf) t\<rparr>" for tick_1st t
    by (auto intro: run_timers_idle)
  with shape show ?thesis by blast
qed

theorem timers_cancelled_before_render_witness:
  "u16 ''https://d.example/p.pdf'' \<noteq> [] \<and> u16 ''q'' \<noteq> []
   \<and> timerInterval (submitForm (u16 ''https://d.example/p.pdf'') (u16 ''q'') fetch_failure_example []) = None
   \<and> waitingTimeout (submitForm (u16 ''https://d.example/p.pdf'') (u16 ''q'') fetch_failure_example []) = None"
proof -
  have d: "u16 ''https://d.example/p.pdf'' \<noteq> []" and q: "u16 ''q'' \<noteq> []"
    by (simp_all add: u16_def)
  from timers_cancelled_before_render [OF d q, of fetch_failure_example "[]"] d q
  show ?thesis by blast
qed

section \<open>The request\<close>

text \<open>
  C1. For a non-empty document URL and a non-empty questions text the handler sends
  exactly one request: a POST to \<^verbatim>\<open>/hackrx/run\<close> with the headers
  \<^verbatim>\<open>Content-Type: application/json\<close>, \<^verbatim>\<open>Authorization: Bearer hackrx-secret-token\<close>
  and \<^verbatim>\<open>Accept: application/json\<close>, whose body is the JSON text of an object with the
  field \<^verbatim>\<open>documents\<close> equal to the document URL and the field \<^verbatim>\<open>questions\<close> equal to
  the comma-split, trimmed, empty-filtered decomposition of the questions text.
\<close>

theorem submitForm_one_request:
  assumes "documentUrl \<noteq> []" and "questionsText \<noteq> []"
  shows "requests (trace (submitForm documentUrl questionsText e box)) =
     [\<lparr>url = u16 ''/hackrx/run'',
       http_method = u16 ''POST'',
       headers = [(u16 ''Content-Type'', u16 ''application/json''),
                  (u16 ''Authorization'', u16 ''Bearer hackrx-secret-token''),
                  (u16 ''Accept'', u16 ''application/json'')],
       body = JSON_stringify 0
                (JObject [(u16 ''documents'', JString documentUrl),
                          (u16 ''questions'',
                           JArray (map JString
                             [q \<leftarrow> map spec_strip (spec_pieces questionsText). q \<noteq> []]))])\<rparr>]"
  using requests_submitForm [OF assms, of e box] questions_spec_questions [of questionsText]
  by (simp add: query_request_def spec_questions_def)

lemma request_body_example:
  \<open>JSON_stringify 0
     (JObject [(u16 ''documents'', JString (u16 ''https://d.example/p.pdf'')),
               (u16 ''questions'',
                JArray (map JString
                  [q \<leftarrow> map spec_strip (spec_pieces (u16 ''a, b ,,c'')). q \<noteq> []]))])
   = u16 ''{"documents":"https://d.example/p.pdf","questions":["a","b","c"]}''\<close>
  by code_simp

theorem submitForm_one_request_witness:
  \<open>u16 ''https://d.example/p.pdf'' \<noteq> [] \<and> u16 ''a, b ,,c'' \<noteq> []
   \<and> requests (trace (submitForm (u16 ''https://d.example/p.pdf'') (u16 ''a, b ,,c'')
        http_200_example [])) =
     [\<lparr>url = u16 ''/hackrx/run'',
       http_method = u16 ''POST'',
       headers = [(u16 ''Content-Type'', u16 ''application/json''),
                  (u16 ''Authorization'', u16 ''Bearer hackrx-secret-token''),
                  (u16 ''Accept'', u16 ''application/json'')],
       body = u16 ''{"documents":"https://d.example/p.pdf","questions":["a","b","c"]}''\<rparr>]\<close>
proof -
  have d: "u16 ''https://d.example/p.pdf'' \<noteq> []" and q: "u16 ''a, b ,,c'' \<noteq> []"
    by (simp_all add: u16_def)
  from submitForm_one_request [OF d q, of http_200_example "[]"] d q
  show ?thesis by (simp only: request_body_example simp_thms)
qed


section \<open>Errors\<close>

lemma includes_js_prefix: "includes_js (t @ b) t"
proof (cases "t @ b")
  case Nil
  then show ?thesis by simp
next
  case (Cons c cs)
  have "prefix t (t @ b)" by simp
  then have "includes_js (c # cs) t" unfolding Cons by simp
  then show ?thesis by (simp only: Cons)
qed

lemma includes_js_append: "includes_js (a @ t @ b) t"
  by (induction a) (simp_all add: includes_js_prefix)

lemma innerHTML_error_markup: "innerHTML (error_markup msg) = error_prefix @ msg"
  by (simp add: innerHTML_def error_markup_def)

lemma innerHTML_connect_error:
  "innerHTML connect_error_markup = error_prefix @ u16 ''Could not connect to backend server.''"
  by (simp add: innerHTML_def connect_error_markup_def)

text \<open>
  C5. When the error caught is a \<^verbatim>\<open>TypeError\<close> whose message contains
  \<^verbatim>\<open>Failed to fetch\<close>, the output container shows the fixed message
  \<^verbatim>\<open>Could not connect to backend server.\<close>; for any other error caught it shows the
  message of that error. In both cases the error is logged to the console first, then the
  timers are cancelled. A rejected request is such a caught error. The validation error
  is only alerted: the alert is the whole trace, so nothing is logged.
\<close>

theorem caught_error_rendering:
  \<open>(documentUrl \<noteq> [] \<and> questionsText \<noteq> []
      \<and> try_block documentUrl questionsText e (begin_loading (page box)) = (Some err, s) \<longrightarrow>
      trace (submitForm documentUrl questionsText e box)
        = trace s @ [ConsoleError err, ClearTimeout, ClearInterval,
                     SetInnerHTML (responseBox (submitForm documentUrl questionsText e box))]
      \<and> innerHTML (responseBox (submitForm documentUrl questionsText e box))
        = (if cls err = TypeError \<and> includes_js (message err) (u16 ''Failed to fetch'')
           then u16 ''<b style="color:red">'' @ [0x274C]
                  @ u16 '' Error:</b> '' @ u16 ''Could not connect to backend server.''
           else u16 ''<b style="color:red">'' @ [0x274C] @ u16 '' Error:</b> '' @ message err))
   \<and> (fetch_result e = Inl err \<longrightarrow>
        fst (try_block documentUrl questionsText e (begin_loading (page box))) = Some err)
   \<and> (documentUrl = [] \<or> questionsText = [] \<longrightarrow>
        trace (submitForm documentUrl questionsText e box)
          = [Alert (u16 ''Please enter a document URL and your questions.'')])\<close>
  by (auto simp: submitForm_def catch_block_trace catch_block_box innerHTML_error_markup
      innerHTML_connect_error error_prefix_def try_block_rejected page_def alert_def emit_def)

theorem caught_error_rendering_witness:
  \<open>innerHTML (responseBox (submitForm (u16 ''https://d.example/p.pdf'') (u16 ''q'')
       fetch_failure_example []))
     = u16 ''<b style="color:red">'' @ [0x274C]
         @ u16 '' Error:</b> '' @ u16 ''Could not connect to backend server.''
   \<and> trace (submitForm [] (u16 ''q'') fetch_failure_example [])
     = [Alert (u16 ''Please enter a document URL and your questions.'')]\<close>
proof -
  let ?d = "u16 ''https://d.example/p.pdf''" and ?q = "u16 ''q''"
  let ?err = "JsError TypeError (u16 ''Failed to fetch'')"
  let ?s = "await (tick_first fetch_failure_example) (fetch_ms fetch_failure_example)
              (fetch (query_request ?d (questions ?q)) (begin_loading (page [])))"
  have d: "?d \<noteq> []" and q: "?q \<noteq> []"
    by (simp_all add: u16_def)
  have rejected: "fetch_result fetch_failure_example = Inl ?err"
    by (simp add: fetch_failure_example_def)
  then have thrown: "try_block ?d ?q fetch_failure_example (begin_loading (page [])) = (Some ?err, ?s)"
    by (rule try_block_rejected)
  have phrase: "cls ?err = TypeError \<and> includes_js (message ?err) (u16 ''Failed to fetch'')"
    using includes_js_prefix [of "u16 ''Failed to fetch''" "[]"] by simp
  from caught_error_rendering [of ?d ?q fetch_failure_example "[]" ?err ?s] d q thrown phrase
  have connect: \<open>innerHTML (responseBox (submitForm ?d ?q fetch_failure_example []))
     = u16 ''<b style="color:red">'' @ [0x274C]
         @ u16 '' Error:</b> '' @ u16 ''Could not connect to backend server.''\<close>
    by simp
  from caught_error_rendering [of "[]" ?q fetch_failure_example "[]" ?err ?s]
  have "trace (submitForm [] ?q fetch_failure_example [])
     = [Alert (u16 ''Please enter a document URL and your questions.'')]"
    by simp
  with connect show ?thesis by simp
qed

text \<open>
  C6, as stated, fails: for a response of status 500 with the body
  \<^verbatim>\<open>server exploded\<close> the message of the error thrown is
  \<^verbatim>\<open>Query failed: server exploded\<close>, not the body text itself.
\<close>

theorem http_error_message_counterexample:
  "fst (try_block (u16 ''https://d.example/p.pdf'') (u16 ''q'') http_500_example
          (begin_loading (page [])))
     = Some (JsError Error (u16 ''Query failed: server exploded''))
   \<and> message (JsError Error (u16 ''Query failed: server exploded'')) \<noteq> u16 ''server exploded''"
  by (simp add: try_block_def Let_def http_500_example_def ok_def u16_def)

text \<open>
  C6, amended. A response whose status is not a success is treated as an error whose
  message is \<^verbatim>\<open>Query failed: \<close> followed by the raw text of the response body; the
  output container shows the error prefix and that message, so what is shown contains the
  body text (for a status 500 with the body \<^verbatim>\<open>server exploded\<close> it contains
  \<^verbatim>\<open>server exploded\<close>).
\<close>

theorem http_error_rendering:
  assumes "documentUrl \<noteq> []" and "questionsText \<noteq> []"
    and "fetch_result e = Inr r" and "\<not> ok r" and "body_text r = Inr t"
  shows \<open>fst (try_block documentUrl questionsText e (begin_loading (page box)))
           = Some (JsError Error (u16 ''Query failed: '' @ t))
         \<and> innerHTML (responseBox (submitForm documentUrl questionsText e box))
           = u16 ''<b style="color:red">'' @ [0x274C] @ u16 '' Error:</b> ''
               @ u16 ''Query failed: '' @ t
         \<and> includes_js (innerHTML (responseBox (submitForm documentUrl questionsText e box))) t\<close>
proof -
  have html: "innerHTML (responseBox (submitForm documentUrl questionsText e box))
      = (error_prefix @ u16 ''Query failed: '') @ t @ []"
    using assms
    by (simp add: submitForm_def try_block_http_error catch_block_box innerHTML_error_markup)
  have "includes_js ((error_prefix @ u16 ''Query failed: '') @ t @ []) t"
    by (rule includes_js_append)
  with html assms show ?thesis
    by (simp add: try_block_http_error error_prefix_def)
qed

theorem http_error_rendering_witness:
  "\<not> ok \<lparr>status = 500, body_ms = 0, body_text = Inr (u16 ''server exploded''),
           body_json = Inl (JsError SyntaxError (u16 ''Unexpected token''))\<rparr>
   \<and> includes_js
       (innerHTML (responseBox (submitForm (u16 ''https://d.example/p.pdf'') (u16 ''q'')
          http_500_example [])))
       (u16 ''server exploded'')"
proof -
  let ?r = "\<lparr>status = 500, body_ms = 0, body_text = Inr (u16 ''server exploded''),
           body_json = Inl (JsError SyntaxError (u16 ''Unexpected token''))\<rparr>"
  have d: "u16 ''https://d.example/p.pdf'' \<noteq> []" and q: "u16 ''q'' \<noteq> []"
    by (simp_all add: u16_def)
  have r: "fetch_result http_500_example = Inr ?r"
    by (simp add: http_500_example_def)
  have bad: "\<not> ok ?r" by (simp add: ok_def)
  have t: "body_text ?r = Inr (u16 ''server exploded'')" by simp
  from http_error_rendering [OF d q r bad t, of "[]"] bad show ?thesis by blast
qed


section \<open>The loading feedback\<close>

lemma fetch_now: "now (fetch req (begin_loading (page box))) = 0"
  by (simp add: fetch_def emit_def begin_loading_now)

lemma fetch_loading_inv:
  "loading_inv (now (fetch req (begin_loading (page box)))) (fetch req (begin_loading (page box)))"
  unfolding fetch_now by (simp add: fetch_def loading_inv_emit begin_loading_inv)



















lemma show_nat_7: "show_nat 7 = u16 ''7''"
  by code_simp

section \<open>The answer\<close>

lemma innerHTML_answer_markup:
  \<open>innerHTML (answer_markup n data)
     = u16 ''<div style="margin-bottom:8px;color:var(--accent);font-size:0.98em;">''
        @ [0x23F1, 0xFE0F] @ u16 '' Answer loaded in <b>'' @ show_nat n
        @ u16 ''s</b></div><pre>'' @ JSON_stringify 2 data @ u16 ''</pre>''\<close>
  by (simp add: innerHTML_def answer_markup_def)

lemma success_state:
  assumes "fetch_result e = Inr r" and "ok r" and "body_json r = Inr data"
  shows "timer (snd (try_block documentUrl questionsText e (begin_loading (page box))))
           = (fetch_ms e + body_ms r) div 1000
         \<and> responseBox (snd (try_block documentUrl questionsText e (begin_loading (page box))))
           = answer_markup ((fetch_ms e + body_ms r) div 1000) data
         \<and> fst (try_block documentUrl questionsText e (begin_loading (page box))) = None"
proof -
  let ?s1 = "fetch (query_request documentUrl (questions questionsText)) (begin_loading (page box))"
  let ?s2 = "await (tick_first e) (fetch_ms e) ?s1"
  let ?s3 = "await (tick_first e) (body_ms r) ?s2"
  have "loading_inv (now ?s1) ?s1" by (rule fetch_loading_inv)
  from await_loading [OF this, where ms = "fetch_ms e" and tick_1st = "tick_first e"]
  have inv2: "loading_inv (now ?s2) ?s2" and now2: "now ?s2 = fetch_ms e"
    by (simp_all add: fetch_now)
  from await_loading [OF inv2, where ms = "body_ms r" and tick_1st = "tick_first e"] now2
  have "timer ?s3 = (fetch_ms e + body_ms r) div 1000" by simp
  with assms show ?thesis
    by (simp add: try_block_success Let_def set_innerHTML_def clearInterval_def
        clearTimeout_def emit_def)
qed

text \<open>
  C7. On a response with a success status whose body parses as JSON, the output container
  shows a line with the elapsed seconds, which are the final value of the counter (the
  whole seconds from the call to the end of the body read), followed by the JSON value
  printed with an indentation of two spaces inside a \<^verbatim>\<open>pre\<close> element.
\<close>

theorem success_rendering:
  assumes "documentUrl \<noteq> []" and "questionsText \<noteq> []"
    and "fetch_result e = Inr r" and "ok r" and "body_json r = Inr data"
  shows \<open>innerHTML (responseBox (submitForm documentUrl questionsText e box))
           = u16 ''<div style="margin-bottom:8px;color:var(--accent);font-size:0.98em;">''
               @ [0x23F1, 0xFE0F] @ u16 '' Answer loaded in <b>''
               @ show_nat (timer (submitForm documentUrl questionsText e box))
               @ u16 ''s</b></div><pre>'' @ JSON_stringify 2 data @ u16 ''</pre>''
         \<and> timer (submitForm documentUrl questionsText e box) = (fetch_ms e + body_ms r) div 1000\<close>
proof -
  let ?tb = "try_block documentUrl questionsText e (begin_loading (page box))"
  from success_state [OF assms(3-5), of documentUrl questionsText box]
  have st: "timer (snd ?tb) = (fetch_ms e + body_ms r) div 1000"
      "responseBox (snd ?tb) = answer_markup ((fetch_ms e + body_ms r) div 1000) data"
      "fst ?tb = None"
    by simp_all
  from assms(1,2) st(3) have "submitForm documentUrl questionsText e box = snd ?tb"
    by (cases ?tb) (simp add: submitForm_def)
  with st show ?thesis by (simp add: innerHTML_answer_markup)
qed

lemma answers_pretty_printed:
  \<open>JSON_stringify 2 (JObject [(u16 ''answers'', JArray [JString (u16 ''x'')])])
     = u16 ''{'' @ [0x0A] @ u16 ''  "answers": ['' @ [0x0A] @ u16 ''    "x"'' @ [0x0A]
         @ u16 ''  ]'' @ [0x0A] @ u16 ''}''\<close>
  by code_simp

theorem success_rendering_witness:
  \<open>ok \<lparr>status = 200, body_ms = 700, body_text = Inr (u16 ''{"answers":["x"]}''),
        body_json = Inr (JObject [(u16 ''answers'', JArray [JString (u16 ''x'')])])\<rparr>
   \<and> innerHTML (responseBox (submitForm (u16 ''https://d.example/p.pdf'') (u16 ''q'')
        http_200_example []))
     = u16 ''<div style="margin-bottom:8px;color:var(--accent);font-size:0.98em;">''
         @ [0x23F1, 0xFE0F] @ u16 '' Answer loaded in <b>'' @ u16 ''7''
         @ u16 ''s</b></div><pre>''
         @ (u16 ''{'' @ [0x0A] @ u16 ''  "answers": ['' @ [0x0A] @ u16 ''    "x"'' @ [0x0A]
            @ u16 ''  ]'' @ [0x0A] @ u16 ''}'')
         @ u16 ''</pre>''\<close>
proof -
  let ?data = "JObject [(u16 ''answers'', JArray [JString (u16 ''x'')])]"
  let ?r = \<open>\<lparr>status = 200, body_ms = 700, body_text = Inr (u16 ''{"answers":["x"]}''),
        body_json = Inr ?data\<rparr>\<close>
  have d: "u16 ''https://d.example/p.pdf'' \<noteq> []" and q: "u16 ''q'' \<noteq> []"
    by (simp_all add: u16_def)
  have r: "fetch_result http_200_example = Inr ?r"
    by (simp add: http_200_example_def)
  have good: "ok ?r" by (simp add: ok_def)
  have j: "body_json ?r = Inr ?data" by simp
  have seconds: "(fetch_ms http_200_example + body_ms ?r) div 1000 = 7"
    by (simp add: http_200_example_def)
  from success_rendering [OF d q r good j, of "[]"] good show ?thesis
    by (simp only: seconds show_nat_7 answers_pretty_printed simp_thms)
qed


section \<open>A questions text without any question\<close>

lemma quote_documents: \<open>QuoteJSONString (u16 ''documents'') = u16 ''"documents"''\<close>
  by code_simp

lemma quote_questions: \<open>QuoteJSONString (u16 ''questions'') = u16 ''"questions"''\<close>
  by code_simp

lemma request_body_no_questions:
  \<open>JSON_stringify 0 (JObject [(u16 ''documents'', JString documentUrl),
                               (u16 ''questions'', JArray [])])
     = u16 ''{'' @ u16 ''"documents"'' @ u16 '':'' @ QuoteJSONString documentUrl @ u16 '',''
         @ u16 ''"questions"'' @ u16 '':'' @ u16 ''[]'' @ u16 ''}''\<close>
  by (simp add: JSON_stringify_def quote_documents quote_questions)

text \<open>
  C9. A questions text made only of commas and white space is not empty, so it passes
  validation; the request is still sent, once, and its \<^verbatim>\<open>questions\<close> field is the
  empty array: whether the derived list is empty is never checked.
\<close>

theorem separators_only_still_sent:
  assumes "documentUrl \<noteq> []" and "questionsText \<noteq> []"
    and "\<forall>c\<in>set questionsText. c = comma \<or> is_ws c"
  shows \<open>questions questionsText = []
         \<and> requests (trace (submitForm documentUrl questionsText e box)) =
             [\<lparr>url = u16 ''/hackrx/run'',
               http_method = u16 ''POST'',
               headers = [(u16 ''Content-Type'', u16 ''application/json''),
                          (u16 ''Authorization'', u16 ''Bearer hackrx-secret-token''),
                          (u16 ''Accept'', u16 ''application/json'')],
               body = u16 ''{'' @ u16 ''"documents"'' @ u16 '':'' @ QuoteJSONString documentUrl
                        @ u16 '','' @ u16 ''"questions"'' @ u16 '':'' @ u16 ''[]'' @ u16 ''}''\<rparr>]\<close>
proof -
  from assms(3) have none: "questions questionsText = []"
    by (rule questions_all_separators)
  from requests_submitForm [OF assms(1,2), of e box] none show ?thesis
    by (simp add: query_request_def request_body_no_questions)
qed

lemma quote_example: \<open>QuoteJSONString (u16 ''https://d.example/p.pdf'') = u16 ''"https://d.example/p.pdf"''\<close>
  by code_simp

lemma separators_example: "\<forall>c\<in>set (u16 '' , ,,  ''). c = comma \<or> is_ws c"
  by (simp add: u16_def comma_def is_ws_def)

theorem separators_only_still_sent_witness:
  \<open>u16 '' , ,,  '' \<noteq> []
   \<and> questions (u16 '' , ,,  '') = []
   \<and> map body (requests (trace (submitForm (u16 ''https://d.example/p.pdf'') (u16 '' , ,,  '')
        http_200_example [])))
     = [u16 ''{'' @ u16 ''"documents"'' @ u16 '':'' @ u16 ''"https://d.example/p.pdf"''
          @ u16 '','' @ u16 ''"questions"'' @ u16 '':'' @ u16 ''[]'' @ u16 ''}'']\<close>
proof -
  have d: "u16 ''https://d.example/p.pdf'' \<noteq> []" and q: "u16 '' , ,,  '' \<noteq> []"
    by (simp_all add: u16_def)
  from separators_only_still_sent [OF d q separators_example, of http_200_example "[]"] q
  show ?thesis by (simp add: quote_example)
qed


end
